theory Spec2Isabelle
  imports Complex_Main "HOL-Library.Log_Nat" "HOL-Library.Code_Target_Nat"
begin

section \<open>JavaScript values as the program sees them\<close>

text \<open>
  The program of \<^verbatim>\<open>whispers/fetchEarningsFromWhispers.mjs\<close> handles values that come
  out of \<^verbatim>\<open>JSON.parse\<close> (the state file) and out of the HTTP client (the response body),
  and reads their properties without any schema check. A value is therefore one of the
  JSON shapes, or \<^verbatim>\<open>undefined\<close> (what reading an absent property gives).

  \<^item> A number is the rational it denotes; arithmetic rounds to binary64 where the
    program computes (\<open>round_double\<close> below).
  \<^item> A string is a list of bytes (its UTF-8 encoding); the program only compares strings,
    searches ASCII markers in them and concatenates them.
  \<^item> An object is the list of its own properties, each key once, in insertion order.
\<close>

datatype jsvalue =
    JUndefined
  | JNull
  | JBool bool
  | JNum rat
  | JStr string
  | JArr "jsvalue list"
  | JObj "(string \<times> jsvalue) list"

text \<open>Every \<^verbatim>\<open>throw\<close> the program can meet, as a value.\<close>

datatype error =
    TypeError       \<comment> \<open>property read on null/undefined, call of a non-function, non-iterable\<close>
  | RequestFailed   \<comment> \<open>\<^verbatim>\<open>client.get\<close> rejected\<close>
  | ValidationError \<comment> \<open>a setter of \<^verbatim>\<open>EmbedBuilder\<close> refused its argument\<close>
  | SendFailed      \<comment> \<open>\<^verbatim>\<open>webhook.send\<close> rejected\<close>
  | ReadFailed      \<comment> \<open>\<^verbatim>\<open>fs.readFile\<close> rejected\<close>
  | SyntaxError     \<comment> \<open>\<^verbatim>\<open>JSON.parse\<close> threw\<close>

text \<open>Sequencing of two steps, the second skipped when the first throws.\<close>

definition and_then :: "error + 'a \<Rightarrow> ('a \<Rightarrow> error + 'b) \<Rightarrow> error + 'b" where
  "and_then m f = (case m of Inl e \<Rightarrow> Inl e | Inr x \<Rightarrow> f x)"

fun nullish :: "jsvalue \<Rightarrow> bool" where
  "nullish JUndefined = True"
| "nullish JNull = True"
| "nullish _ = False"

text \<open>
  \<^verbatim>\<open>v.name\<close> for a value that is neither null nor undefined, and for the property names
  this program reads (none of them is inherited from a prototype): the own property of an
  object, \<^verbatim>\<open>undefined\<close> for an absent one and for every property of a primitive or an array.
\<close>

fun get_prop :: "jsvalue \<Rightarrow> string \<Rightarrow> jsvalue" where
  "get_prop (JObj kvs) name = (case map_of kvs name of Some v \<Rightarrow> v | None \<Rightarrow> JUndefined)"
| "get_prop _ name = JUndefined"

text \<open>\<^verbatim>\<open>Boolean(v)\<close>: what \<^verbatim>\<open>||\<close> and \<^verbatim>\<open>?:\<close> test.\<close>

fun truthy :: "jsvalue \<Rightarrow> bool" where
  "truthy JUndefined = False"
| "truthy JNull = False"
| "truthy (JBool b) = b"
| "truthy (JNum x) = (x \<noteq> 0)"
| "truthy (JStr s) = (s \<noteq> [])"
| "truthy (JArr _) = True"
| "truthy (JObj _) = True"

text \<open>
  \<^verbatim>\<open>a === b\<close>. Primitives compare by value. Arrays and objects compare by identity, and the
  two sides of every \<^verbatim>\<open>===\<close> of this program are read from two different records, which
  never share a part: two arrays or two objects are never \<^verbatim>\<open>===\<close> here.
\<close>

fun strict_eq :: "jsvalue \<Rightarrow> jsvalue \<Rightarrow> bool" where
  "strict_eq JUndefined JUndefined = True"
| "strict_eq JNull JNull = True"
| "strict_eq (JBool a) (JBool b) = (a = b)"
| "strict_eq (JNum a) (JNum b) = (a = b)"
| "strict_eq (JStr a) (JStr b) = (a = b)"
| "strict_eq _ _ = False"

section \<open>Strings\<close>

text \<open>\<^verbatim>\<open>s.startsWith(t)\<close> and \<^verbatim>\<open>s.includes(t)\<close>, by recursion on \<open>s\<close>.\<close>

fun starts_with :: "string \<Rightarrow> string \<Rightarrow> bool" where
  "starts_with s [] = True"
| "starts_with [] (c # t) = False"
| "starts_with (d # s) (c # t) = (d = c \<and> starts_with s t)"

fun str_includes :: "string \<Rightarrow> string \<Rightarrow> bool" where
  "str_includes [] t = (t = [])"
| "str_includes (c # s) t = (starts_with (c # s) t \<or> str_includes s t)"

section \<open>The state file\<close>

text \<open>
  What the program is given by the JavaScript runtime and not by its own text:
  \<^verbatim>\<open>JSON.parse\<close> (\<open>None\<close> when it throws), \<^verbatim>\<open>Number::toString\<close> and the conversion of a
  string to a number.
\<close>

datatype jsnumber = Fin rat | NaN | PInf | NInf

record runtime =
  parse_json :: "string \<Rightarrow> jsvalue option"
  number_to_string :: "rat \<Rightarrow> string"
  string_to_number :: "string \<Rightarrow> jsnumber"

text \<open>\<^verbatim>\<open>fs.readFile(STATE_FILE, "utf-8")\<close>: the file's text, \<open>None\<close> when it cannot be read.\<close>

definition readFile :: "string option \<Rightarrow> error + string" where
  "readFile file = (case file of None \<Rightarrow> Inl ReadFailed | Some txt \<Rightarrow> Inr txt)"

definition JSON_parse :: "runtime \<Rightarrow> string \<Rightarrow> error + jsvalue" where
  "JSON_parse rt txt = (case parse_json rt txt of None \<Rightarrow> Inl SyntaxError | Some v \<Rightarrow> Inr v)"

text \<open>
  \<^verbatim>\<open>loadState\<close> (lines 20-26): the \<^verbatim>\<open>try\<close> block reads and parses, the \<^verbatim>\<open>catch\<close> block
  returns \<^verbatim>\<open>[]\<close> whatever was thrown.
\<close>

definition loadState :: "runtime \<Rightarrow> string option \<Rightarrow> error + jsvalue" where
  "loadState rt file =
     (case and_then (readFile file) (JSON_parse rt) of
        Inl e \<Rightarrow> Inr (JArr [])
      | Inr v \<Rightarrow> Inr v)"

section \<open>Classification\<close>

definition GREEN_CIRCLE :: string where
  "GREEN_CIRCLE = map char_of [240, 159, 159, 162 :: nat]"

definition RED_CIRCLE :: string where
  "RED_CIRCLE = map char_of [240, 159, 148, 180 :: nat]"

definition BLUE_CIRCLE :: string where
  "BLUE_CIRCLE = map char_of [240, 159, 148, 181 :: nat]"

text \<open>
  \<^verbatim>\<open>subject?.includes(marker)\<close>: \<^verbatim>\<open>undefined\<close> when the subject is null or undefined; the
  substring test on a string; the membership test on an array; a \<^verbatim>\<open>TypeError\<close> on any
  other value, which has no callable \<^verbatim>\<open>includes\<close>.
\<close>

fun opt_includes :: "jsvalue \<Rightarrow> string \<Rightarrow> error + jsvalue" where
  "opt_includes JUndefined marker = Inr JUndefined"
| "opt_includes JNull marker = Inr JUndefined"
| "opt_includes (JStr s) marker = Inr (JBool (str_includes s marker))"
| "opt_includes (JArr xs) marker = Inr (JBool (JStr marker \<in> set xs))"
| "opt_includes _ marker = Inl TypeError"

text \<open>
  \<^verbatim>\<open>a || b\<close> where both sides are \<^verbatim>\<open>subject?.includes(...)\<close>: the right side is not
  evaluated when the left one is truthy.
\<close>

definition either_includes :: "jsvalue \<Rightarrow> string \<Rightarrow> string \<Rightarrow> error + bool" where
  "either_includes subject m1 m2 =
     and_then (opt_includes subject m1) (\<lambda>a.
       if truthy a then Inr True
       else and_then (opt_includes subject m2) (\<lambda>b. Inr (truthy b)))"

text \<open>
  \<^verbatim>\<open>statusEmoji\<close> (lines 72-79). Reading \<^verbatim>\<open>item.subject\<close> throws when the item itself is
  null or undefined.
\<close>

definition statusEmoji :: "jsvalue \<Rightarrow> error + string" where
  "statusEmoji item =
     (if nullish item then Inl TypeError
      else
        and_then (either_includes (get_prop item ''subject'')
                    ''Beat Expectations'' ''Beat Consensus Estimates'') (\<lambda>beat.
          if beat then Inr GREEN_CIRCLE
          else
            and_then (either_includes (get_prop item ''subject'')
                        ''Missed Expectations'' ''Missed Consensus Estimates'') (\<lambda>missed.
              if missed then Inr RED_CIRCLE else Inr BLUE_CIRCLE)))"

section \<open>Numbers\<close>

text \<open>
  A JavaScript number is a binary64 value. The finite ones are rationals, so the model
  computes on rationals and writes the rounding out: \<open>round_double\<close> is rounding to
  nearest, ties to even, with 53 bits of precision (\<open>n\<close> units of \<open>ulp\<close>), the subnormal
  range below \<open>2 powi -1022\<close>, and overflow to an infinity when the rounded value reaches
  \<open>2 ^ 1024\<close>. Zero stands for both
  zeros, which nothing in this program tells apart.
\<close>

definition round_half_even :: "rat \<Rightarrow> int" where
  "round_half_even q =
     (let f = \<lfloor>q\<rfloor>; d = q - of_int f
      in if d < 1 / 2 then f
         else if 1 / 2 < d then f + 1
         else if even f then f else f + 1)"

text \<open>\<open>\<lfloor>log\<^sub>2 a\<rfloor>\<close> for a positive rational, from the bit lengths of its two parts.\<close>

definition floor_log2 :: "rat \<Rightarrow> int" where
  "floor_log2 a =
     (let k = bitlen (fst (quotient_of a)) - bitlen (snd (quotient_of a))
      in if 2 powi k \<le> a then k else k - 1)"

definition round_double :: "rat \<Rightarrow> jsnumber" where
  "round_double x =
     (if x = 0 then Fin 0
      else
        let a = \<bar>x\<bar>;
            e = floor_log2 a;
            ulp = 2 powi (max e (- 1022) - 52);
            n = round_half_even (a / ulp)
        in if 1024 \<le> e \<or> (e = 1023 \<and> n = 2 ^ 53)
           then (if x < 0 then NInf else PInf)
           else Fin (if x < 0 then - (of_int n * ulp) else of_int n * ulp))"

text \<open>\<^verbatim>\<open>n * c\<close>, \<^verbatim>\<open>n / c\<close>, \<^verbatim>\<open>n > c\<close> and \<^verbatim>\<open>n >= c\<close> for a positive constant \<open>c\<close>.\<close>

fun num_mul :: "jsnumber \<Rightarrow> rat \<Rightarrow> jsnumber" where
  "num_mul (Fin x) c = round_double (x * c)"
| "num_mul n c = n"

fun num_div :: "jsnumber \<Rightarrow> rat \<Rightarrow> jsnumber" where
  "num_div (Fin x) c = round_double (x / c)"
| "num_div n c = n"

fun num_gt :: "jsnumber \<Rightarrow> rat \<Rightarrow> bool" where
  "num_gt (Fin x) c = (c < x)"
| "num_gt PInf c = True"
| "num_gt _ c = False"

fun num_ge :: "jsnumber \<Rightarrow> rat \<Rightarrow> bool" where
  "num_ge (Fin x) c = (c \<le> x)"
| "num_ge PInf c = True"
| "num_ge _ c = False"

text \<open>The decimal digits of a natural number.\<close>

definition digit_char :: "nat \<Rightarrow> char" where
  "digit_char d = char_of (48 + d)"

fun decimal :: "nat \<Rightarrow> string" where
  "decimal n = (if n < 10 then [digit_char n] else decimal (n div 10) @ [digit_char (n mod 10)])"

declare decimal.simps [simp del]

text \<open>
  \<^verbatim>\<open>Number.prototype.toFixed(f)\<close> (ECMA-262, 21.1.3.3): the sign, then the integer \<open>n\<close>
  nearest to \<open>\<bar>x\<bar> * 10 ^ f\<close> (the larger one of two), padded with zeros to \<open>f + 1\<close> digits,
  with the point before its last \<open>f\<close> digits. From \<open>10 ^ 21\<close> on the result is what
  \<^verbatim>\<open>Number::toString\<close> gives.
\<close>

definition toFixed :: "runtime \<Rightarrow> jsnumber \<Rightarrow> nat \<Rightarrow> string" where
  "toFixed rt x f =
     (case x of
        NaN \<Rightarrow> ''NaN''
      | PInf \<Rightarrow> ''Infinity''
      | NInf \<Rightarrow> ''-Infinity''
      | Fin r \<Rightarrow>
          if 10 ^ 21 \<le> \<bar>r\<bar> then number_to_string rt r
          else
            let n = nat \<lfloor>\<bar>r\<bar> * 10 ^ f + 1 / 2\<rfloor>;
                m = decimal n;
                m = (if length m \<le> f then replicate (f + 1 - length m) (CHR ''0'') @ m else m);
                k = length m
            in (if r < 0 then ''-'' else [])
               @ (if f \<noteq> 0 then take (k - f) m @ ''.'' @ drop (k - f) m else m))"

section \<open>Conversions\<close>

text \<open>
  \<^verbatim>\<open>Array.prototype.join\<close> with the separator \<^verbatim>\<open>","\<close>, over elements already converted;
  the first element that threw decides.
\<close>

fun join_comma :: "(error + string) list \<Rightarrow> error + string" where
  "join_comma [] = Inr []"
| "join_comma [x] = x"
| "join_comma (x # y # ys) =
     and_then x (\<lambda>s. and_then (join_comma (y # ys)) (\<lambda>t. Inr (s @ '','' @ t)))"

text \<open>
  \<^verbatim>\<open>ToString(v)\<close>, as a template literal applies it. An array is joined, its null and
  undefined elements giving the empty string. A plain object gives
  \<^verbatim>\<open>[object Object]\<close>, unless it has an own property \<^verbatim>\<open>toString\<close>: that one is JSON data, not
  a function, \<^verbatim>\<open>valueOf\<close> returns the object itself, and the conversion throws.
\<close>

fun to_string :: "runtime \<Rightarrow> jsvalue \<Rightarrow> error + string" where
  "to_string rt JUndefined = Inr ''undefined''"
| "to_string rt JNull = Inr ''null''"
| "to_string rt (JBool b) = Inr (if b then ''true'' else ''false'')"
| "to_string rt (JNum x) = Inr (number_to_string rt x)"
| "to_string rt (JStr s) = Inr s"
| "to_string rt (JArr xs) =
     join_comma (map (\<lambda>x. if nullish x then Inr [] else to_string rt x) xs)"
| "to_string rt (JObj kvs) =
     (case map_of kvs ''toString'' of
        Some _ \<Rightarrow> Inl TypeError
      | None \<Rightarrow> Inr ''[object Object]'')"

text \<open>\<^verbatim>\<open>ToNumber(v)\<close>, as \<^verbatim>\<open>*\<close>, \<^verbatim>\<open>/\<close>, \<^verbatim>\<open>>\<close> and \<^verbatim>\<open>>=\<close> apply it to an operand.\<close>

fun to_number :: "runtime \<Rightarrow> jsvalue \<Rightarrow> error + jsnumber" where
  "to_number rt JUndefined = Inr NaN"
| "to_number rt JNull = Inr (Fin 0)"
| "to_number rt (JBool b) = Inr (Fin (if b then 1 else 0))"
| "to_number rt (JNum x) = Inr (Fin x)"
| "to_number rt (JStr s) = Inr (string_to_number rt s)"
| "to_number rt v = and_then (to_string rt v) (\<lambda>s. Inr (string_to_number rt s))"

section \<open>Formatting\<close>

text \<open>\<^verbatim>\<open>fmtMoney\<close> (lines 81-88). \<^verbatim>\<open>m.toFixed\<close> is a function only when \<open>m\<close> is a number.\<close>

definition fmtMoney :: "runtime \<Rightarrow> jsvalue \<Rightarrow> error + string" where
  "fmtMoney rt m =
     (if nullish m then Inr ''N/A''
      else
        and_then (to_number rt m) (\<lambda>n.
          if num_gt n 999 then Inr (''$'' @ toFixed rt (num_div n 1000) 2 @ ''B'')
          else if num_ge n 1 then
            (case m of
               JNum x \<Rightarrow> Inr (''$'' @ toFixed rt (Fin x) 2 @ ''M'')
             | _ \<Rightarrow> Inl TypeError)
          else Inr (''$'' @ toFixed rt (num_mul n 1000) 2 @ ''K'')))"

text \<open>
  A percentage field (lines 112-143): \<^verbatim>\<open>v != null ? `${(v * 100).toFixed(d)}%` : "N/A"\<close>,
  behind the prefix the field has.
\<close>

definition fmtPercent :: "runtime \<Rightarrow> string \<Rightarrow> nat \<Rightarrow> jsvalue \<Rightarrow> error + string" where
  "fmtPercent rt pre d v =
     (if nullish v then Inr ''N/A''
      else and_then (to_number rt v) (\<lambda>n. Inr (pre @ toFixed rt (num_mul n 100) d @ ''%'')))"

text \<open>
  \<^verbatim>\<open>new Date(v).toLocaleString()\<close>: the constructor converts an array or an object to a
  primitive first; how a primitive is read as a date, and how the date is printed, is the
  environment's business (time zone, language), given as \<open>toLocaleString\<close>.
\<close>

definition date_string :: "runtime \<Rightarrow> (jsvalue \<Rightarrow> string) \<Rightarrow> jsvalue \<Rightarrow> error + string" where
  "date_string rt toLocaleString v =
     (case v of
        JArr xs \<Rightarrow> and_then (to_string rt v) (\<lambda>s. Inr (toLocaleString (JStr s)))
      | JObj kvs \<Rightarrow> and_then (to_string rt v) (\<lambda>s. Inr (toLocaleString (JStr s)))
      | _ \<Rightarrow> Inr (toLocaleString v))"

text \<open>\<^verbatim>\<open>s.replace(/<br \/>/g, "\n")\<close>.\<close>

fun replace_br :: "string \<Rightarrow> string" where
  "replace_br [] = []"
| "replace_br (c # s) =
     (if starts_with (c # s) ''<br />'' then CHR 0x0A # replace_br (drop 5 s)
      else c # replace_br s)"

text \<open>
  One match of \<^verbatim>\<open>/<a [^>]+>([^<]+)<\/a>/\<close> at the head of \<open>s\<close>: the text of the group and
  what follows the match. Both classes exclude the character that must follow them, so the
  greedy runs are the only candidates.
\<close>

definition match_anchor :: "string \<Rightarrow> (string \<times> string) option" where
  "match_anchor s =
     (if \<not> starts_with s ''<a '' then None
      else
        let s1 = drop 3 s;
            attrs = takeWhile (\<lambda>c. c \<noteq> CHR ''>'') s1;
            s2 = dropWhile (\<lambda>c. c \<noteq> CHR ''>'') s1
        in if attrs = [] \<or> s2 = [] then None
           else
             let s3 = tl s2;
                 txt = takeWhile (\<lambda>c. c \<noteq> CHR ''<'') s3;
                 s4 = dropWhile (\<lambda>c. c \<noteq> CHR ''<'') s3
             in if txt = [] \<or> \<not> starts_with s4 ''</a>'' then None
                else Some (txt, drop 4 s4))"

text \<open>\<^verbatim>\<open>s.replace(/<a [^>]+>([^<]+)<\/a>/g, "[$1]")\<close>: leftmost matches, left to right.\<close>

function replace_anchors :: "string \<Rightarrow> string" where
  "replace_anchors [] = []"
| "replace_anchors (c # s) =
     (case match_anchor (c # s) of
        Some (txt, rest) \<Rightarrow> ''['' @ txt @ '']'' @ replace_anchors rest
      | None \<Rightarrow> c # replace_anchors s)"
  by pat_completeness auto
termination
proof (relation "measure length")
  show "wf (measure length)" by simp
next
  fix c :: char and s :: string
  show "(s, c # s) \<in> measure length" by simp
next
  fix c :: char and s :: string and x2 :: "string \<times> string" and label rest :: string
  assume m: "match_anchor (c # s) = Some x2" and x2: "(label, rest) = x2"
  let ?t = "tl (dropWhile (\<lambda>c. c \<noteq> CHR ''>'') (drop 3 (c # s)))"
  have "rest = drop 4 (dropWhile (\<lambda>c. c \<noteq> CHR ''<'') ?t)"
    using m x2 by (auto simp: match_anchor_def Let_def split: if_splits)
  moreover have "length (dropWhile (\<lambda>c. c \<noteq> CHR ''<'') ?t) \<le> length ?t"
    by (rule length_dropWhile_le)
  moreover have "length (dropWhile (\<lambda>c. c \<noteq> CHR ''>'') (drop 3 (c # s))) \<le> length (drop 3 (c # s))"
    by (rule length_dropWhile_le)
  ultimately have "length rest < length (c # s)" by auto
  then show "(rest, c # s) \<in> measure length" by simp
qed

text \<open>
  The description (lines 167-171): \<^verbatim>\<open>(item.summary || "")\<close> must be a string for
  \<^verbatim>\<open>.replace\<close> to exist.
\<close>

definition description_of :: "jsvalue \<Rightarrow> error + string" where
  "description_of summary =
     (case (if truthy summary then summary else JStr []) of
        JStr s \<Rightarrow> Inr (replace_anchors (replace_br s))
      | _ \<Rightarrow> Inl TypeError)"

text \<open>The message handed to the webhook: what \<^verbatim>\<open>EmbedBuilder\<close> was given (lines 90-173).\<close>

record field =
  field_name :: string
  field_value :: jsvalue
  inline :: bool

record embed =
  color :: nat
  title :: string
  url :: string
  author :: jsvalue
  embed_fields :: "field list"
  description :: string
  footer :: string
  timestamp :: int

definition EM_DASH :: string where
  "EM_DASH = map char_of [226, 128, 148 :: nat]"

definition text_field :: "string \<Rightarrow> string \<Rightarrow> field" where
  "text_field n s = \<lparr>field_name = n, field_value = JStr s, inline = True\<rparr>"

text \<open>
  \<^verbatim>\<open>EmbedBuilder\<close> (discord.js 14) checks the argument of each setter and throws when it
  refuses one. The refusals that the type and the emptiness of a value decide are written
  out here; the limits on lengths, the check of the URL and the transport are left to
  the sink of the run.
  \<^item> \<^verbatim>\<open>setAuthor\<close>: the name must be null or a string of at least one character.
  \<^item> \<^verbatim>\<open>addFields\<close>: the value of a field must be a string of at least one character.
  \<^item> \<^verbatim>\<open>setDescription\<close>: the description must have at least one character.
\<close>

fun name_refused :: "jsvalue \<Rightarrow> bool" where
  "name_refused JNull = False"
| "name_refused (JStr s) = (s = [])"
| "name_refused _ = True"

fun value_refused :: "jsvalue \<Rightarrow> bool" where
  "value_refused (JStr s) = (s = [])"
| "value_refused _ = True"

definition refuse_if :: "bool \<Rightarrow> error + 'a \<Rightarrow> error + 'a" where
  "refuse_if c m = (if c then Inl ValidationError else m)"

text \<open>\<^verbatim>\<open>v || "N/A"\<close> (lines 151 and 156).\<close>

definition or_NA :: "jsvalue \<Rightarrow> jsvalue" where
  "or_NA v = (if truthy v then v else JStr ''N/A'')"

text \<open>
  The body of the loop from the classification to the finished embed (lines 72-173), which
  the specification calls \<^verbatim>\<open>format\<close>. The arguments are evaluated and the setters called
  in the order of the source; the first one that throws ends the construction. The
  strings of the computed fields are never empty, so \<^verbatim>\<open>addFields\<close> can only refuse the two
  grades, which are passed as they are. \<open>toLocaleString\<close> stands for the environment's date
  printing and \<open>now\<close> for the clock \<^verbatim>\<open>setTimestamp()\<close> reads.
\<close>

definition format :: "runtime \<Rightarrow> (jsvalue \<Rightarrow> string) \<Rightarrow> int \<Rightarrow> jsvalue \<Rightarrow> error + embed" where
  "format rt toLocaleString now item =
     and_then (statusEmoji item) (\<lambda>emoji.
     and_then (to_string rt (get_prop item ''ticker'')) (\<lambda>ticker.
     and_then (to_string rt (get_prop item ''subject'')) (\<lambda>subject.
     refuse_if (name_refused (if truthy (get_prop item ''name'') then get_prop item ''name''
                              else get_prop item ''ticker'')) (
     and_then (date_string rt toLocaleString (get_prop item ''epsDate'')) (\<lambda>date.
     and_then (to_string rt (get_prop item ''eps'')) (\<lambda>eps.
     and_then (to_string rt (get_prop item ''estimate'')) (\<lambda>estimate.
     and_then (to_string rt (get_prop item ''whisper'')) (\<lambda>whisper.
     and_then (fmtMoney rt (get_prop item ''revenue'')) (\<lambda>revenue.
     and_then (fmtMoney rt (get_prop item ''revenueEstimate'')) (\<lambda>revenueEstimate.
     and_then (fmtPercent rt ''EPS '' 2 (get_prop item ''earningsSurprise'')) (\<lambda>earningsSurprise.
     and_then (fmtPercent rt [] 2 (get_prop item ''revenueSurprise'')) (\<lambda>revenueSurprise.
     and_then (fmtPercent rt [] 1 (get_prop item ''prevEarningsGrowth'')) (\<lambda>prevEarningsGrowth.
     and_then (fmtPercent rt [] 1 (get_prop item ''prevRevenueGrowth'')) (\<lambda>prevRevenueGrowth.
     and_then (to_string rt (get_prop item ''highEstimate'')) (\<lambda>highEstimate.
     and_then (to_string rt (get_prop item ''lowEstimate'')) (\<lambda>lowEstimate.
     and_then (if truthy (get_prop item ''fileName'')
               then and_then (to_string rt (get_prop item ''fileName''))
                      (\<lambda>f. Inr (''[Link](https://app.webinar.net/'' @ f @ '')''))
               else Inr ''N/A'') (\<lambda>call.
     refuse_if (value_refused (or_NA (get_prop item ''ewGrade''))
                \<or> value_refused (or_NA (get_prop item ''pwrRating''))) (
     and_then (description_of (get_prop item ''summary'')) (\<lambda>descr.
     refuse_if (descr = []) (
       Inr \<lparr>color = 0x1abc9c,
            title = emoji @ '' '' @ ticker @ '' '' @ EM_DASH @ '' '' @ subject,
            url = ''https://www.earningswhispers.com/epsdetails/'' @ ticker,
            author = (if truthy (get_prop item ''name'') then get_prop item ''name''
                      else get_prop item ''ticker''),
            embed_fields =
              [text_field ''Earnings Date'' date,
               text_field ''EPS (est/whisp)''
                 (eps @ '' (Estimate: '' @ estimate @ '' / Whisper: '' @ whisper @ '')''),
               text_field ''Revenue'' revenue,
               text_field ''Revenue Estimate'' revenueEstimate,
               text_field ''Earnings Surprise %'' earningsSurprise,
               text_field ''Revenue Surprise %'' revenueSurprise,
               text_field ''Previous Earnings Growth'' prevEarningsGrowth,
               text_field ''Previous Revenue Growth'' prevRevenueGrowth,
               text_field ''High / Low Est.'' (highEstimate @ '' / '' @ lowEstimate),
               \<lparr>field_name = ''Earnings Whispers Grade'',
                field_value = or_NA (get_prop item ''ewGrade''),
                inline = True\<rparr>,
               \<lparr>field_name = ''Power Rating'',
                field_value = or_NA (get_prop item ''pwrRating''),
                inline = True\<rparr>,
               text_field ''Conference Call'' call],
            description = descr,
            footer = ''Source: Earnings Whispers'',
            timestamp = now\<rparr>))))))))))))))))))))"

section \<open>The run\<close>

text \<open>
  What one run meets outside the program: the state file (\<open>None\<close> when it cannot be read),
  whether the warm-up request succeeds, the parsed body of the data request (\<open>None\<close> when
  the request fails), whether the \<open>k\<close>-th message built is accepted, the clock when the
  \<open>k\<close>-th message is stamped, the environment's date printing, and whether
  \<^verbatim>\<open>fs.writeFile\<close> succeeds.

  A message that \<open>format\<close> has built is accepted when it also passes the checks of
  \<^verbatim>\<open>EmbedBuilder\<close> that \<open>format\<close> leaves open (lengths, the URL) and \<^verbatim>\<open>webhook.send\<close>
  resolves. A refusal by either one leaves the \<^verbatim>\<open>try\<close> block in the same way, before
  \<^verbatim>\<open>state.push\<close>: \<open>sink\<close> answers for both.
\<close>

record world =
  state_file :: "string option"
  warmup_ok :: bool
  response :: "jsvalue option"
  sink :: "nat \<Rightarrow> embed \<Rightarrow> bool"
  clock :: "nat \<Rightarrow> int"
  toLocaleString :: "jsvalue \<Rightarrow> string"
  write_ok :: bool

text \<open>
  What a run does, in order. \<open>Format item\<close> marks that the loop body went past the
  \<^verbatim>\<open>continue\<close> of line 70 for \<open>item\<close>; \<open>Send item e ok\<close> is the delivery of the embed \<open>e\<close>
  built from \<open>item\<close> (\<^verbatim>\<open>webhook.send\<close>, line 175), and whether the sink accepted it;
  \<open>Catch\<close> is the \<^verbatim>\<open>catch\<close> block of line 184; \<open>Save s ok\<close> is the call of \<^verbatim>\<open>saveState\<close> of
  line 187 with the state \<open>s\<close>, and whether the file was written; \<open>Destroy\<close> is
  \<^verbatim>\<open>webhook.destroy\<close>; \<open>Exit\<close> is \<^verbatim>\<open>process.exit\<close>.
\<close>

datatype event =
    Format jsvalue
  | Send jsvalue embed bool
  | Catch error
  | Save jsvalue bool
  | Destroy
  | Exit nat

text \<open>
  The callback of \<^verbatim>\<open>state.some\<close> (lines 67-69) over the elements in order, until one
  matches. Reading \<^verbatim>\<open>e.epsDate\<close> or \<^verbatim>\<open>item.epsDate\<close> throws on null and undefined.
\<close>

fun some_match :: "jsvalue list \<Rightarrow> jsvalue \<Rightarrow> error + bool" where
  "some_match [] item = Inr False"
| "some_match (e # es) item =
     (if nullish e \<or> nullish item then Inl TypeError
      else if strict_eq (get_prop e ''epsDate'') (get_prop item ''epsDate'')
              \<and> strict_eq (get_prop e ''ticker'') (get_prop item ''ticker'')
      then Inr True
      else some_match es item)"

text \<open>\<^verbatim>\<open>state.some(...)\<close>: only an array has a callable \<^verbatim>\<open>some\<close>.\<close>

fun exists :: "jsvalue \<Rightarrow> jsvalue \<Rightarrow> error + bool" where
  "exists (JArr es) item = some_match es item"
| "exists _ item = Inl TypeError"

text \<open>\<^verbatim>\<open>state.push(item)\<close> (line 180).\<close>

fun push :: "jsvalue \<Rightarrow> jsvalue \<Rightarrow> error + jsvalue" where
  "push (JArr es) item = Inr (JArr (es @ [item]))"
| "push _ item = Inl TypeError"

definition prepend :: "event list \<Rightarrow> event list \<times> jsvalue \<times> error option
                       \<Rightarrow> event list \<times> jsvalue \<times> error option" where
  "prepend evs r = (evs @ fst r, snd r)"

text \<open>
  The loop of lines 66-183 over the items still to come: the events, the state when the
  loop is left and the exception that left it, if any. \<open>k\<close> counts the messages built so
  far.
\<close>

fun deliver :: "runtime \<Rightarrow> world \<Rightarrow> jsvalue \<Rightarrow> nat \<Rightarrow> jsvalue list
                 \<Rightarrow> event list \<times> jsvalue \<times> error option" where
  "deliver rt w state k [] = ([], state, None)"
| "deliver rt w state k (item # rest) =
     (case exists state item of
        Inl e \<Rightarrow> ([], state, Some e)
      | Inr True \<Rightarrow> deliver rt w state k rest
      | Inr False \<Rightarrow>
          (case format rt (toLocaleString w) (clock w k) item of
             Inl e \<Rightarrow> ([Format item], state, Some e)
           | Inr emb \<Rightarrow>
               if \<not> sink w k emb
               then ([Format item, Send item emb False], state, Some SendFailed)
               else
                 (case push state item of
                    Inl e \<Rightarrow> ([Format item, Send item emb True], state, Some e)
                  | Inr state' \<Rightarrow>
                      prepend [Format item, Send item emb True]
                        (deliver rt w state' (Suc k) rest))))"

text \<open>The two requests of lines 42-63.\<close>

definition fetch :: "world \<Rightarrow> error + jsvalue" where
  "fetch w =
     (if \<not> warmup_ok w then Inl RequestFailed
      else case response w of None \<Rightarrow> Inl RequestFailed | Some data \<Rightarrow> Inr data)"

text \<open>
  \<^verbatim>\<open>for (const item of data)\<close>: an array gives its elements, a string its characters, each
  a string of its own; nothing else that JSON can carry is iterable.
\<close>

fun iterate :: "jsvalue \<Rightarrow> error + jsvalue list" where
  "iterate (JArr xs) = Inr xs"
| "iterate (JStr s) = Inr (map (\<lambda>c. JStr [c]) s)"
| "iterate _ = Inl TypeError"

text \<open>
  \<^verbatim>\<open>main\<close> (lines 35-191) with the handler of lines 193-197. The \<^verbatim>\<open>finally\<close> block saves
  the state, then reads \<^verbatim>\<open>state.length\<close>, which throws on null; an exception that leaves
  \<^verbatim>\<open>main\<close> ends the process with code 1.
\<close>

definition main :: "runtime \<Rightarrow> world \<Rightarrow> event list" where
  "main rt w =
     (case loadState rt (state_file w) of
        Inl e \<Rightarrow> [Destroy, Exit 1]
      | Inr state \<Rightarrow>
          let r = (case and_then (fetch w) iterate of
                     Inl e \<Rightarrow> ([], state, Some e)
                   | Inr items \<Rightarrow> deliver rt w state 0 items)
          in fst r
             @ (case snd (snd r) of None \<Rightarrow> [] | Some e \<Rightarrow> [Catch e])
             @ [Save (fst (snd r)) (write_ok w)]
             @ (if write_ok w \<and> \<not> nullish (fst (snd r)) then [Destroy] else [Destroy, Exit 1]))"

section \<open>What the properties speak about\<close>

text \<open>
  Two records have the same composite key when both have properties at all and their
  \<^verbatim>\<open>epsDate\<close> and their \<^verbatim>\<open>ticker\<close> are strictly equal.
\<close>

definition same_key :: "jsvalue \<Rightarrow> jsvalue \<Rightarrow> bool" where
  "same_key e item \<longleftrightarrow>
     \<not> nullish e \<and> \<not> nullish item
     \<and> strict_eq (get_prop e ''epsDate'') (get_prop item ''epsDate'')
     \<and> strict_eq (get_prop e ''ticker'') (get_prop item ''ticker'')"

text \<open>
  The new items of a feed, in feed order: those whose key is neither the key of a known
  record nor the key of an earlier new item of the same feed.
\<close>

fun new_items :: "jsvalue list \<Rightarrow> jsvalue list \<Rightarrow> jsvalue list" where
  "new_items known [] = []"
| "new_items known (item # rest) =
     (if \<exists>e \<in> set known. same_key e item then new_items known rest
      else item # new_items (known @ [item]) rest)"

text \<open>
  The specification's own wording: the reports whose key is not among the keys of the
  state that was loaded. It is \<open>new_items\<close> when no two records of the feed share a key
  (\<open>new_items_unique_keys\<close> below).
\<close>

definition not_in_state :: "jsvalue list \<Rightarrow> jsvalue list \<Rightarrow> jsvalue list" where
  "not_in_state known feed = filter (\<lambda>item. \<not> (\<exists>e \<in> set known. same_key e item)) feed"

fun unique_keys :: "jsvalue list \<Rightarrow> bool" where
  "unique_keys [] = True"
| "unique_keys (item # rest) = ((\<forall>later \<in> set rest. \<not> same_key item later) \<and> unique_keys rest)"

text \<open>Readings of a run: the outcomes of the sends, their items, and the states saved.\<close>

fun send_results :: "event list \<Rightarrow> bool list" where
  "send_results [] = []"
| "send_results (Send item e ok # evs) = ok # send_results evs"
| "send_results (ev # evs) = send_results evs"

fun sent_items :: "event list \<Rightarrow> jsvalue list" where
  "sent_items [] = []"
| "sent_items (Send item e ok # evs) = item # sent_items evs"
| "sent_items (ev # evs) = sent_items evs"

fun saved_states :: "event list \<Rightarrow> jsvalue list" where
  "saved_states [] = []"
| "saved_states (Save s ok # evs) = s # saved_states evs"
| "saved_states (ev # evs) = saved_states evs"

fun formatted_items :: "event list \<Rightarrow> jsvalue list" where
  "formatted_items [] = []"
| "formatted_items (Format item # evs) = item # formatted_items evs"
| "formatted_items (ev # evs) = formatted_items evs"

text \<open>What a run still does after its first save.\<close>

fun after_save :: "event list \<Rightarrow> event list" where
  "after_save [] = []"
| "after_save (Save s ok # evs) = evs"
| "after_save (ev # evs) = after_save evs"

text \<open>\<^verbatim>\<open>Array.isArray(v)\<close> and \<^verbatim>\<open>typeof v === "string"\<close>.\<close>

fun is_array :: "jsvalue \<Rightarrow> bool" where
  "is_array (JArr xs) = True"
| "is_array _ = False"

fun is_string :: "jsvalue \<Rightarrow> bool" where
  "is_string (JStr s) = True"
| "is_string _ = False"

text \<open>
  An embed without the two parts that the time of the call and the environment decide:
  the timestamp, and the value of its first field (the earnings date).
\<close>

definition without_time_and_date :: "embed \<Rightarrow> embed" where
  "without_time_and_date e =
     e\<lparr>timestamp := 0,
       embed_fields :=
         (case embed_fields e of
            [] \<Rightarrow> []
          | f # fs \<Rightarrow> f\<lparr>field_value := JNull\<rparr> # fs)\<rparr>"

section \<open>Two decimals\<close>

text \<open>
  "With 2 decimals", as the specification says it: the sign, the whole part of the
  number of hundredths nearest to \<open>x\<close>, the point, and the two digits of the rest.
\<close>

definition two_decimals :: "rat \<Rightarrow> string" where
  "two_decimals x =
     (let n = nat \<lfloor>\<bar>x\<bar> * 100 + 1 / 2\<rfloor>
      in (if x < 0 then ''-'' else [])
         @ decimal (n div 100) @ ''.'' @ [digit_char (n div 10 mod 10), digit_char (n mod 10)])"

section \<open>Sample inputs\<close>

text \<open>
  A runtime to run the model on concrete inputs: its \<^verbatim>\<open>JSON.parse\<close> reads the two texts
  the samples use and rejects every other one, its number printing and string reading
  are placeholders that no sample below reaches.
\<close>

definition sample_runtime :: runtime where
  "sample_runtime =
     \<lparr>parse_json = (\<lambda>s. if s = ''[]'' then Some (JArr [])
                         else if s = ''null'' then Some JNull
                         else None),
      number_to_string = (\<lambda>x. ''?''),
      string_to_number = (\<lambda>s. NaN)\<rparr>"

definition both_markers :: jsvalue where
  "both_markers =
     JObj [(''ticker'', JStr ''ACME''),
           (''subject'', JStr ''Acme Missed Expectations, Beat Expectations'')]"

definition null_subject :: jsvalue where
  "null_subject = JObj [(''ticker'', JStr ''ACME''), (''subject'', JNull)]"

text \<open>Records as the feed sends them; \<open>cnc\<close> comes with no EPS figures.\<close>

definition cnc :: jsvalue where
  "cnc =
     JObj [(''epsDate'', JStr ''2025-07-27T12:50:00''),
           (''ticker'', JStr ''CNC''),
           (''name'', JStr ''Centene Corporation''),
           (''summary'', JStr ''Centene (CNC) reported a loss.<br /><br />The company said during its <a href=\"https://app.webinar.net/NR6KbwxLVn8\">conference call</a> it expects less.''),
           (''subject'', JStr ''Centene Missed Consensus Estimates''),
           (''eps'', JNull),
           (''estimate'', JNull),
           (''highEstimate'', JNull),
           (''revenue'', JNum 48742),
           (''ewGrade'', JNull)]"

definition hca :: jsvalue where
  "hca =
     JObj [(''epsDate'', JStr ''2025-07-25T07:30:00''),
           (''ticker'', JStr ''HCA''),
           (''name'', JStr ''HCA Healthcare, Inc.''),
           (''summary'', JStr ''HCA Healthcare (HCA) reported earnings of $6.84 per share.''),
           (''subject'', JStr ''HCA Healthcare Beat Expectations'')]"

definition hca_again :: jsvalue where
  "hca_again =
     JObj [(''epsDate'', JStr ''2025-07-25T07:30:00''),
           (''ticker'', JStr ''HCA''),
           (''name'', JStr ''HCA Healthcare''),
           (''summary'', JStr ''HCA Healthcare (HCA) reported earnings of $6.48 per share.''),
           (''subject'', JStr ''HCA Healthcare Missed Expectations''),
           (''revenue'', JNum 18605)]"

definition acme :: jsvalue where
  "acme =
     JObj [(''epsDate'', JStr ''2025-07-28T08:00:00''),
           (''ticker'', JStr ''ACME''),
           (''summary'', JStr ''Acme (ACME) reported earnings of $1.00 per share.''),
           (''subject'', JStr ''Acme Beat Consensus Estimates'')]"

definition sample_printer :: "jsvalue \<Rightarrow> string" where
  "sample_printer v = (case v of JStr s \<Rightarrow> s | _ \<Rightarrow> ''Invalid Date'')"

definition us_printer :: "jsvalue \<Rightarrow> string" where
  "us_printer v = (case v of JStr s \<Rightarrow> ''7/27/2025, 12:50:00 PM'' | _ \<Rightarrow> ''Invalid Date'')"

text \<open>
  Four runs. In all of them the state file holds \<^verbatim>\<open>[]\<close> or is absent and the sink takes
  what it is told to take.
  \<^item> \<open>string_body\<close>: the data request answers with the JSON string \<^verbatim>\<open>"a"\<close>.
  \<^item> \<open>object_body\<close>: the data request answers with the JSON object \<^verbatim>\<open>{}\<close>.
  \<^item> \<open>second_send_fails\<close>: the feed has three new records and the second send fails.
  \<^item> \<open>no_answer\<close>: the data request fails.
\<close>

definition string_body :: world where
  "string_body =
     \<lparr>state_file = None, warmup_ok = True, response = Some (JStr ''a''),
      sink = (\<lambda>k e. True), clock = (\<lambda>k. 1753620600000 + 3000 * int k),
      toLocaleString = sample_printer, write_ok = True\<rparr>"


definition second_send_fails :: world where
  "second_send_fails =
     \<lparr>state_file = Some ''[]'', warmup_ok = True, response = Some (JArr [hca, cnc, acme]),
      sink = (\<lambda>k e. k \<noteq> 1), clock = (\<lambda>k. 1753620600000 + 3000 * int k),
      toLocaleString = sample_printer, write_ok = True\<rparr>"

definition no_answer :: world where
  "no_answer =
     \<lparr>state_file = Some ''[]'', warmup_ok = True, response = None,
      sink = (\<lambda>k e. True), clock = (\<lambda>k. 1753620600000 + 3000 * int k),
      toLocaleString = sample_printer, write_ok = True\<rparr>"

text \<open>
  A fifth run: the state file holds the HCA record of an earlier run, and the feed brings
  it again, with other fields, before a new record.
\<close>

definition hca_file :: string where
  "hca_file = ''[{\"epsDate\":\"2025-07-25T07:30:00\",\"ticker\":\"HCA\"}]''"

definition hca_known :: jsvalue where
  "hca_known = JObj [(''epsDate'', JStr ''2025-07-25T07:30:00''), (''ticker'', JStr ''HCA'')]"

definition reading_runtime :: runtime where
  "reading_runtime =
     sample_runtime\<lparr>parse_json := (\<lambda>s. if s = hca_file then Some (JArr [hca_known])
                                        else parse_json sample_runtime s)\<rparr>"

definition hca_twice :: world where
  "hca_twice =
     \<lparr>state_file = Some hca_file, warmup_ok = True, response = Some (JArr [hca_again, cnc]),
      sink = (\<lambda>k e. True), clock = (\<lambda>k. 1753620600000 + 3000 * int k),
      toLocaleString = sample_printer, write_ok = True\<rparr>"

section \<open>Substring search is what it says\<close>

lemma starts_with_iff: "starts_with s t \<longleftrightarrow> (\<exists>r. s = t @ r)"
  by (induction s t rule: starts_with.induct) auto

lemma str_includes_iff: "str_includes s t \<longleftrightarrow> (\<exists>p r. s = p @ t @ r)"
proof (induction s)
  case Nil
  then show ?case by auto
next
  case (Cons c s)
  show ?case
  proof
    assume "str_includes (c # s) t"
    then consider "starts_with (c # s) t" | "str_includes s t" by auto
    then show "\<exists>p r. c # s = p @ t @ r"
    proof cases
      case 1
      then obtain r where "c # s = t @ r" using starts_with_iff by blast
      then have "c # s = [] @ t @ r" by simp
      then show ?thesis by blast
    next
      case 2
      then obtain p r where "s = p @ t @ r" using Cons.IH by blast
      then have "c # s = (c # p) @ t @ r" by simp
      then show ?thesis by blast
    qed
  next
    assume "\<exists>p r. c # s = p @ t @ r"
    then obtain p r where eq: "c # s = p @ t @ r" by blast
    show "str_includes (c # s) t"
    proof (cases p)
      case Nil
      then have "starts_with (c # s) t" using eq starts_with_iff by auto
      then show ?thesis by simp
    next
      case (Cons d p')
      then have "s = p' @ t @ r" using eq by simp
      then have "str_includes s t" using Cons.IH by blast
      then show ?thesis by simp
    qed
  qed
qed

section \<open>Sequencing\<close>

lemma and_then_Inr [simp]: "and_then (Inr x) f = f x"
  by (simp add: and_then_def)

lemma and_then_Inl [simp]: "and_then (Inl e) f = Inl e"
  by (simp add: and_then_def)

section \<open>Loading the state\<close>

lemma loadState_returns: "\<exists>v. loadState rt file = Inr v"
  by (simp add: loadState_def split: sum.splits)

text \<open>
  C5. \<^verbatim>\<open>loadState\<close> returns a value for every state file, never an exception; when the
  file cannot be read, and when its text does not parse as JSON, the value is the empty
  array.
\<close>

theorem loadState_never_raises:
  "(\<exists>v. loadState rt file = Inr v)
   \<and> (file = None \<longrightarrow> loadState rt file = Inr (JArr []))
   \<and> (\<forall>content. file = Some content \<and> parse_json rt content = None
          \<longrightarrow> loadState rt file = Inr (JArr []))"
  by (auto simp: loadState_def readFile_def JSON_parse_def split: sum.splits option.splits)

theorem loadState_never_raises_witness:
  "parse_json sample_runtime ''{ not json'' = None
   \<and> loadState sample_runtime (Some ''{ not json'') = Inr (JArr [])
   \<and> loadState sample_runtime None = Inr (JArr [])"
  using loadState_never_raises [of sample_runtime "Some ''{ not json''"]
        loadState_never_raises [of sample_runtime None]
  by (simp add: sample_runtime_def)

section \<open>Classification\<close>

lemma circles_distinct:
  "GREEN_CIRCLE \<noteq> RED_CIRCLE" "GREEN_CIRCLE \<noteq> BLUE_CIRCLE" "RED_CIRCLE \<noteq> BLUE_CIRCLE"
  by (simp_all add: GREEN_CIRCLE_def RED_CIRCLE_def BLUE_CIRCLE_def)

text \<open>
  C4. For a record whose subject is a string, the classification is decided by substring
  search, the two Beat markers first: the green circle (POSITIVE) when the subject
  contains one of them, whatever else it contains; the red circle (NEGATIVE) when it
  contains none of them and contains a Missed marker; the blue circle (NEUTRAL) otherwise.
  Characters are compared as they are, so the search is case-sensitive.
\<close>

theorem classification_by_marker:
  assumes "\<not> nullish item" and "get_prop item ''subject'' = JStr s"
  shows "statusEmoji item =
           Inr (if (\<exists>p r. s = p @ ''Beat Expectations'' @ r)
                   \<or> (\<exists>p r. s = p @ ''Beat Consensus Estimates'' @ r)
                then GREEN_CIRCLE
                else if (\<exists>p r. s = p @ ''Missed Expectations'' @ r)
                        \<or> (\<exists>p r. s = p @ ''Missed Consensus Estimates'' @ r)
                then RED_CIRCLE
                else BLUE_CIRCLE)"
proof -
  have conv: "(\<exists>p r. s = p @ t @ r) = str_includes s t" for t
    by (simp only: str_includes_iff)
  show ?thesis
    unfolding conv using assms
    by (simp add: statusEmoji_def either_includes_def)
qed

theorem classification_by_marker_witness:
  "\<not> nullish both_markers
   \<and> get_prop both_markers ''subject'' = JStr ''Acme Missed Expectations, Beat Expectations''
   \<and> statusEmoji both_markers = Inr GREEN_CIRCLE"
proof -
  have n: "\<not> nullish both_markers"
    by (simp add: both_markers_def)
  have s: "get_prop both_markers ''subject'' = JStr ''Acme Missed Expectations, Beat Expectations''"
    by (simp add: both_markers_def)
  have "str_includes ''Acme Missed Expectations, Beat Expectations'' ''Beat Expectations''"
    by code_simp
  then have "\<exists>p r. ''Acme Missed Expectations, Beat Expectations'' = p @ ''Beat Expectations'' @ r"
    by (simp only: str_includes_iff)
  then show ?thesis
    using n s classification_by_marker [OF n s] by simp
qed

lemma classification_is_case_sensitive:
  "statusEmoji (JObj [(''subject'', JStr ''Acme beat expectations'')]) = Inr BLUE_CIRCLE"
  by code_simp

text \<open>
  C10. A record whose subject is null or absent is classified with the blue circle
  (NEUTRAL): the classification returns, and takes neither the Beat nor the Missed branch.
\<close>

theorem absent_subject_is_neutral:
  assumes "\<not> nullish item" and "nullish (get_prop item ''subject'')"
  shows "statusEmoji item = Inr BLUE_CIRCLE"
  using assms
  by (cases "get_prop item ''subject''") (auto simp: statusEmoji_def either_includes_def)

theorem absent_subject_is_neutral_witness:
  "\<not> nullish null_subject \<and> nullish (get_prop null_subject ''subject'')
   \<and> statusEmoji null_subject = Inr BLUE_CIRCLE
   \<and> \<not> nullish (JObj []) \<and> nullish (get_prop (JObj []) ''subject'')
   \<and> statusEmoji (JObj []) = Inr BLUE_CIRCLE"
  using absent_subject_is_neutral [of null_subject] absent_subject_is_neutral [of "JObj []"]
  by (simp add: null_subject_def)

section \<open>Money\<close>

lemma decimal_small: "n < 10 \<Longrightarrow> decimal n = [digit_char n]"
  by (simp add: decimal.simps)

lemma decimal_step: "10 \<le> n \<Longrightarrow> decimal n = decimal (n div 10) @ [digit_char (n mod 10)]"
  by (subst decimal.simps) simp

lemma decimal_not_empty: "decimal n \<noteq> []"
  by (subst decimal.simps) simp

lemma digit_char_0: "digit_char 0 = CHR ''0''"
  by code_simp

lemma padded_hundredths:
  "(let m = decimal n;
        m = (if length m \<le> 2 then replicate (2 + 1 - length m) (CHR ''0'') @ m else m);
        k = length m
    in take (k - 2) m @ ''.'' @ drop (k - 2) m)
   = decimal (n div 100) @ ''.'' @ [digit_char (n div 10 mod 10), digit_char (n mod 10)]"
proof -
  consider "n < 10" | "10 \<le> n" "n < 100" | "100 \<le> n" by linarith
  then show ?thesis
  proof cases
    case 1
    then show ?thesis
      by (simp add: decimal_small digit_char_0 Let_def)
  next
    case 2
    then have "n div 10 < 10" by simp
    then have "decimal n = [digit_char (n div 10), digit_char (n mod 10)]"
      using 2 by (simp add: decimal_step decimal_small)
    then show ?thesis
      using 2 by (simp add: decimal_small digit_char_0 Let_def)
  next
    case 3
    then have "10 \<le> n" and "10 \<le> n div 10" by simp_all
    then have "decimal n
                 = decimal (n div 10 div 10) @ [digit_char (n div 10 mod 10), digit_char (n mod 10)]"
      by (simp add: decimal_step)
    moreover have "n div 10 div 10 = n div 100"
      by (simp add: div_mult2_eq [symmetric])
    ultimately have d: "decimal n
                 = decimal (n div 100) @ [digit_char (n div 10 mod 10), digit_char (n mod 10)]"
      by simp
    have "length (decimal (n div 100)) \<noteq> 0"
      using decimal_not_empty by simp
    then show ?thesis
      by (simp add: d Let_def)
  qed
qed

text \<open>
  What \<^verbatim>\<open>toFixed(2)\<close> prints below \<open>10 ^ 21\<close>: the number in hundredths, rounded to the
  nearest one, with exactly two digits behind the point.
\<close>

lemma toFixed_two_decimals:
  assumes "\<bar>x\<bar> < 10 ^ 21"
  shows "toFixed rt (Fin x) 2 = two_decimals x"
  using assms padded_hundredths [of "nat \<lfloor>\<bar>x\<bar> * 100 + 1 / 2\<rfloor>"]
  by (simp add: toFixed_def two_decimals_def Let_def)

lemma hundredths_nearest:
  assumes "0 \<le> a"
  shows "\<bar>of_nat (nat \<lfloor>a * 100 + 1 / 2\<rfloor>) / 100 - a\<bar> \<le> (1 / 200 :: rat)"
proof -
  define z where "z = \<lfloor>a * 100 + 1 / 2\<rfloor>"
  have "0 \<le> z" using assms by (simp add: z_def)
  then have n: "(of_nat (nat z) :: rat) = of_int z"
    by simp
  have "of_int z \<le> a * 100 + 1 / 2" and "a * 100 + 1 / 2 < of_int z + 1"
    unfolding z_def by linarith+
  then have "\<bar>of_int z / 100 - a\<bar> \<le> 1 / 200"
    by linarith
  then show ?thesis using n by (simp add: z_def)
qed



section \<open>The dedup scan\<close>

lemma some_match_False:
  "some_match es item = Inr False \<Longrightarrow> \<forall>e \<in> set es. \<not> same_key e item"
  by (induction es) (auto simp: same_key_def split: if_splits)

lemma some_match_True:
  "some_match es item = Inr True \<Longrightarrow> \<exists>e \<in> set es. same_key e item"
  by (induction es) (auto simp: same_key_def split: if_splits)

lemma some_match_found:
  assumes "e \<in> set es" and "same_key e item"
  shows "some_match es item \<noteq> Inr False"
  using assms some_match_False by blast

section \<open>The loop\<close>

lemma fst_prepend [simp]: "fst (prepend evs r) = evs @ fst r"
  by (simp add: prepend_def)

lemma snd_prepend [simp]: "snd (prepend evs r) = snd r"
  by (simp add: prepend_def)

text \<open>The loop body when the state is an array, which \<^verbatim>\<open>push\<close> keeps it.\<close>

lemma deliver_array:
  "deliver rt w (JArr xs) k (item # rest) =
     (case some_match xs item of
        Inl e \<Rightarrow> ([], JArr xs, Some e)
      | Inr True \<Rightarrow> deliver rt w (JArr xs) k rest
      | Inr False \<Rightarrow>
          (case format rt (toLocaleString w) (clock w k) item of
             Inl e \<Rightarrow> ([Format item], JArr xs, Some e)
           | Inr emb \<Rightarrow>
               if \<not> sink w k emb
               then ([Format item, Send item emb False], JArr xs, Some SendFailed)
               else prepend [Format item, Send item emb True]
                      (deliver rt w (JArr (xs @ [item])) (Suc k) rest)))"
  by (simp split: sum.splits bool.splits)

text \<open>A state that is not an array stops the loop at its first item, before any event.\<close>

lemma deliver_not_array:
  assumes "\<forall>xs. state \<noteq> JArr xs"
  shows "deliver rt w state k items
           = ([], state, if items = [] then None else Some TypeError)"
proof (cases items)
  case Nil
  then show ?thesis by simp
next
  case (Cons item rest)
  have "exists state item = Inl TypeError"
    using assms by (cases state) simp_all
  then show ?thesis using Cons by simp
qed

text \<open>Every item the loop starts to format or sends has a key that no known record has.\<close>

lemma deliver_formats_fresh:
  assumes "ev \<in> set (fst (deliver rt w (JArr xs) k items))"
    and "ev = Format item \<or> ev = Send item emb ok"
    and "x \<in> set xs"
  shows "\<not> same_key x item"
  using assms
proof (induction items arbitrary: xs k)
  case Nil
  then show ?case by simp
next
  case (Cons i rest)
  consider (err) e where "some_match xs i = Inl e"
    | (dup) "some_match xs i = Inr True"
    | (new) "some_match xs i = Inr False"
    by (cases "some_match xs i") auto
  then show ?case
  proof cases
    case err
    with Cons.prems show ?thesis by (simp add: deliver_array)
  next
    case dup
    with Cons show ?thesis by (simp add: deliver_array)
  next
    case new
    then have fresh: "\<forall>e \<in> set xs. \<not> same_key e i"
      by (rule some_match_False)
    show ?thesis
    proof (cases "format rt (toLocaleString w) (clock w k) i")
      case (Inl e)
      with new Cons.prems fresh show ?thesis
        by (auto simp: deliver_array)
    next
      case (Inr emb')
      show ?thesis
      proof (cases "sink w k emb'")
        case False
        with Inr new Cons.prems fresh show ?thesis
          by (auto simp: deliver_array)
      next
        case True
        with Inr new Cons.prems
        have "ev \<in> {Format i, Send i emb' True}
              \<or> ev \<in> set (fst (deliver rt w (JArr (xs @ [i])) (Suc k) rest))"
          by (auto simp: deliver_array)
        then show ?thesis
        proof
          assume "ev \<in> {Format i, Send i emb' True}"
          with Cons.prems(2) have "item = i" by auto
          with fresh Cons.prems(3) show ?thesis by simp
        next
          assume "ev \<in> set (fst (deliver rt w (JArr (xs @ [i])) (Suc k) rest))"
          then show ?thesis
            using Cons.IH [of "xs @ [i]" "Suc k"] Cons.prems(2,3) by simp
        qed
      qed
    qed
  qed
qed

text \<open>The loop saves nothing, whatever the state.\<close>

lemma deliver_events:
  "ev \<in> set (fst (deliver rt w state k items))
     \<Longrightarrow> (\<exists>item. ev = Format item) \<or> (\<exists>item emb ok. ev = Send item emb ok)"
proof (induction items arbitrary: state k)
  case Nil
  then show ?case by simp
next
  case (Cons i rest)
  show ?case
  proof (cases "\<exists>xs. state = JArr xs")
    case False
    then show ?thesis
      using Cons.prems deliver_not_array [of state rt w k "i # rest"] by simp
  next
    case True
    then obtain xs where xs: "state = JArr xs" by blast
    show ?thesis
      using Cons.prems Cons.IH
      unfolding xs deliver_array
      by (auto split: sum.splits bool.splits if_splits)
  qed
qed

section \<open>Readings of a run\<close>

lemma send_results_append [simp]:
  "send_results (xs @ ys) = send_results xs @ send_results ys"
  by (induction xs rule: send_results.induct) auto

lemma sent_items_append [simp]:
  "sent_items (xs @ ys) = sent_items xs @ sent_items ys"
  by (induction xs rule: sent_items.induct) auto

lemma formatted_items_append [simp]:
  "formatted_items (xs @ ys) = formatted_items xs @ formatted_items ys"
  by (induction xs rule: formatted_items.induct) auto

lemma saved_states_append [simp]:
  "saved_states (xs @ ys) = saved_states xs @ saved_states ys"
  by (induction xs rule: saved_states.induct) auto

lemma sent_items_iff:
  "item \<in> set (sent_items evs) \<longleftrightarrow> (\<exists>emb ok. Send item emb ok \<in> set evs)"
  by (induction evs rule: sent_items.induct) auto

lemma formatted_items_iff:
  "item \<in> set (formatted_items evs) \<longleftrightarrow> Format item \<in> set evs"
  by (induction evs rule: formatted_items.induct) auto

lemma deliver_saves_nothing [simp]:
  "saved_states (fst (deliver rt w state k items)) = []"
proof -
  have "\<forall>ev \<in> set evs. (\<exists>item. ev = Format item) \<or> (\<exists>item emb ok. ev = Send item emb ok)
          \<Longrightarrow> saved_states evs = []" for evs
    by (induction evs rule: saved_states.induct) auto
  then show ?thesis using deliver_events by blast
qed

lemma after_save_deliver [simp]:
  "after_save (fst (deliver rt w state k items) @ evs) = after_save evs"
proof -
  have "\<forall>ev \<in> set xs. (\<exists>item. ev = Format item) \<or> (\<exists>item emb ok. ev = Send item emb ok)
          \<Longrightarrow> after_save (xs @ evs) = after_save evs" for xs
    by (induction xs rule: after_save.induct) auto
  then show ?thesis using deliver_events by blast
qed

section \<open>Dedup\<close>

text \<open>
  C1. A fetched record with the composite key of a record of the loaded state is
  skipped: the run neither starts to format it nor sends it, whatever its other fields
  are.
\<close>

theorem known_record_is_skipped:
  assumes "loadState rt (state_file w) = Inr (JArr es)"
    and "e \<in> set es"
    and "same_key e item"
  shows "item \<notin> set (formatted_items (main rt w)) \<and> item \<notin> set (sent_items (main rt w))"
proof (cases "and_then (fetch w) iterate")
  case (Inl err)
  with assms(1) show ?thesis by (simp add: main_def)
next
  case (Inr feed)
  let ?evs = "fst (deliver rt w (JArr es) 0 feed)"
  have "Format item \<notin> set ?evs" and "\<And>emb ok. Send item emb ok \<notin> set ?evs"
    using deliver_formats_fresh [of _ rt w es 0 feed item] assms(2,3) by blast+
  then have "item \<notin> set (formatted_items ?evs)" and "item \<notin> set (sent_items ?evs)"
    by (simp_all add: formatted_items_iff sent_items_iff)
  with assms(1) Inr show ?thesis
    by (simp add: main_def Let_def split: option.splits)
qed

theorem known_record_is_skipped_witness:
  "loadState reading_runtime (state_file hca_twice) = Inr (JArr [hca_known])
   \<and> hca_known \<in> set [hca_known]
   \<and> same_key hca_known hca_again
   \<and> hca_again \<notin> set (formatted_items (main reading_runtime hca_twice))
   \<and> hca_again \<notin> set (sent_items (main reading_runtime hca_twice))"
proof -
  have l: "loadState reading_runtime (state_file hca_twice) = Inr (JArr [hca_known])"
    by (simp add: loadState_def readFile_def JSON_parse_def reading_runtime_def hca_twice_def)
  have m: "hca_known \<in> set [hca_known]"
    by simp
  have k: "same_key hca_known hca_again"
    by (simp add: same_key_def hca_known_def hca_again_def)
  show ?thesis
    using l m k known_record_is_skipped [OF l m k] by simp
qed

text \<open>In that run the new record is sent, and the state grows by it alone.\<close>

lemma hca_twice_run:
  "sent_items (main reading_runtime hca_twice) = [cnc]
   \<and> saved_states (main reading_runtime hca_twice) = [JArr [hca_known, cnc]]"
  by code_simp

section \<open>Saving the state\<close>

lemma main_unfold:
  assumes "loadState rt (state_file w) = Inr state"
  shows "main rt w =
           (let r = (case and_then (fetch w) iterate of
                       Inl e \<Rightarrow> ([], state, Some e)
                     | Inr feed \<Rightarrow> deliver rt w state 0 feed)
            in fst r
               @ (case snd (snd r) of None \<Rightarrow> [] | Some e \<Rightarrow> [Catch e])
               @ [Save (fst (snd r)) (write_ok w)]
               @ (if write_ok w \<and> \<not> nullish (fst (snd r)) then [Destroy] else [Destroy, Exit 1]))"
  using assms by (simp add: main_def)

text \<open>
  C7. Every run of \<^verbatim>\<open>main\<close> saves the state exactly once, and after the save it only
  releases the webhook and, when the save or the count that follows it failed, exits
  with code 1. When the warm-up or the data request fails, the state saved is the state
  that was loaded.
\<close>

theorem state_saved_once_at_end:
  "\<exists>st. saved_states (main rt w) = [st]
        \<and> after_save (main rt w)
            = (if write_ok w \<and> \<not> nullish st then [Destroy] else [Destroy, Exit 1])
        \<and> (\<not> warmup_ok w \<or> response w = None \<longrightarrow> loadState rt (state_file w) = Inr st)"
proof -
  obtain state where l: "loadState rt (state_file w) = Inr state"
    using loadState_returns by blast
  show ?thesis
  proof (cases "and_then (fetch w) iterate")
    case (Inl e)
    then have "main rt w = [Catch e, Save state (write_ok w)]
                 @ (if write_ok w \<and> \<not> nullish state then [Destroy] else [Destroy, Exit 1])"
      by (simp add: main_unfold [OF l])
    then show ?thesis using l by simp
  next
    case (Inr feed)
    then have ok: "warmup_ok w" and "response w \<noteq> None"
      by (auto simp: fetch_def split: if_splits option.splits)
    define r where "r = deliver rt w state 0 feed"
    have m: "main rt w =
               fst r @ (case snd (snd r) of None \<Rightarrow> [] | Some e \<Rightarrow> [Catch e])
               @ [Save (fst (snd r)) (write_ok w)]
               @ (if write_ok w \<and> \<not> nullish (fst (snd r)) then [Destroy] else [Destroy, Exit 1])"
      using Inr by (simp add: main_unfold [OF l] r_def Let_def)
    have "saved_states (main rt w) = [fst (snd r)]"
      unfolding m r_def by (simp split: option.splits)
    moreover have "after_save (main rt w)
                     = (if write_ok w \<and> \<not> nullish (fst (snd r)) then [Destroy]
                        else [Destroy, Exit 1])"
      unfolding m r_def by (simp split: option.splits)
    ultimately show ?thesis using ok \<open>response w \<noteq> None\<close> by auto
  qed
qed

theorem state_saved_once_at_end_witness:
  "response no_answer = None
   \<and> loadState sample_runtime (state_file no_answer) = Inr (JArr [])
   \<and> saved_states (main sample_runtime no_answer) = [JArr []]
   \<and> after_save (main sample_runtime no_answer) = [Destroy]"
proof -
  have n: "response no_answer = None"
    by (simp add: no_answer_def)
  then have h: "\<not> warmup_ok no_answer \<or> response no_answer = None"
    by simp
  have l: "loadState sample_runtime (state_file no_answer) = Inr (JArr [])"
    by (simp add: loadState_def readFile_def JSON_parse_def sample_runtime_def no_answer_def)
  have "write_ok no_answer"
    by (simp add: no_answer_def)
  then show ?thesis
    using n h l state_saved_once_at_end [of sample_runtime no_answer] by auto
qed

section \<open>A response that is not an array\<close>

text \<open>
  A body that is not iterable (an object, a number, a boolean or null) makes the loop
  throw before its first item: the run is the catch block, the save of the loaded state
  and the release of the webhook.
\<close>

lemma non_iterable_response_aborts:
  assumes "response w = Some data"
    and "\<not> is_array data"
    and "\<not> is_string data"
    and "loadState rt (state_file w) = Inr state"
  shows "\<exists>e. main rt w = [Catch e, Save state (write_ok w)]
                 @ (if write_ok w \<and> \<not> nullish state then [Destroy] else [Destroy, Exit 1])"
proof -
  have "iterate data = Inl TypeError"
    using assms(2,3) by (cases data) simp_all
  then have "\<exists>e. and_then (fetch w) iterate = Inl e"
    using assms(1) by (simp add: fetch_def)
  then show ?thesis
    by (auto simp: main_unfold [OF assms(4)])
qed





text \<open>
  The run on the string \<^verbatim>\<open>"a"\<close>, event by event: the character passes the dedup scan,
  \<^verbatim>\<open>setAuthor\<close> throws, and the catch block and the save follow.
\<close>

lemma string_body_run:
  "main sample_runtime string_body
     = [Format (JStr ''a''), Catch ValidationError, Save (JArr []) True, Destroy]"
  by code_simp

section \<open>Partial failure\<close>

text \<open>
  What the loop leaves behind: some number \<open>j\<close> of sends went through, possibly followed
  by one that failed; the items sent are the first new items, in feed order, and the
  state has grown by the first \<open>j\<close> of them.
\<close>

lemma deliver_sends:
  "\<exists>j. fst (snd (deliver rt w (JArr xs) k items)) = JArr (xs @ take j (new_items xs items))
        \<and> (send_results (fst (deliver rt w (JArr xs) k items)) = replicate j True
             \<or> send_results (fst (deliver rt w (JArr xs) k items)) = replicate j True @ [False])
        \<and> sent_items (fst (deliver rt w (JArr xs) k items))
             = take (length (send_results (fst (deliver rt w (JArr xs) k items))))
                 (new_items xs items)"
proof (induction items arbitrary: xs k)
  case Nil
  show ?case by (rule exI [of _ 0]) simp
next
  case (Cons i rest)
  consider (err) e where "some_match xs i = Inl e"
    | (dup) "some_match xs i = Inr True"
    | (new) "some_match xs i = Inr False"
    by (cases "some_match xs i") auto
  then show ?case
  proof cases
    case err
    show ?thesis by (rule exI [of _ 0]) (simp add: deliver_array err)
  next
    case dup
    then have "\<exists>e \<in> set xs. same_key e i"
      by (rule some_match_True)
    then have "new_items xs (i # rest) = new_items xs rest"
      by simp
    then show ?thesis
      using Cons.IH [of xs k] by (simp add: deliver_array dup)
  next
    case new
    then have "\<forall>e \<in> set xs. \<not> same_key e i"
      by (rule some_match_False)
    then have n: "new_items xs (i # rest) = i # new_items (xs @ [i]) rest"
      by simp
    show ?thesis
    proof (cases "format rt (toLocaleString w) (clock w k) i")
      case (Inl e)
      show ?thesis by (rule exI [of _ 0]) (simp add: deliver_array new Inl)
    next
      case (Inr emb)
      show ?thesis
      proof (cases "sink w k emb")
        case False
        show ?thesis by (rule exI [of _ 0]) (simp add: deliver_array new Inr False n del: new_items.simps)
      next
        case True
        let ?r = "deliver rt w (JArr (xs @ [i])) (Suc k) rest"
        have d: "deliver rt w (JArr xs) k (i # rest) = prepend [Format i, Send i emb True] ?r"
          by (simp add: deliver_array new Inr True)
        obtain j where j:
          "fst (snd ?r) = JArr ((xs @ [i]) @ take j (new_items (xs @ [i]) rest))"
          "send_results (fst ?r) = replicate j True
             \<or> send_results (fst ?r) = replicate j True @ [False]"
          "sent_items (fst ?r) = take (length (send_results (fst ?r))) (new_items (xs @ [i]) rest)"
          using Cons.IH [of "xs @ [i]" "Suc k"] by blast
        show ?thesis
          by (rule exI [of _ "Suc j"]) (use j in \<open>auto simp: d n simp del: new_items.simps deliver.simps\<close>)
      qed
    qed
  qed
qed

lemma replicate_True_False:
  assumes "replicate j True = replicate n True @ [False]
           \<or> replicate j True @ [False] = replicate n True @ [False]"
  shows "j = n"
proof -
  have "replicate j True \<noteq> replicate n True @ [False]"
  proof
    assume "replicate j True = replicate n True @ [False]"
    then have "False \<in> set (replicate j True)" by simp
    then show False by simp
  qed
  then have "replicate j True = replicate n True"
    using assms by simp
  then have "length (replicate j True) = length (replicate n True)"
    by (rule arg_cong)
  then show ?thesis by simp
qed

text \<open>
  C2. When the \<open>N\<close>-th send of the run fails after \<open>N - 1\<close> sends that went through, the
  items sent are the first \<open>N\<close> new items of the feed, and the one state saved is the loaded
  state followed by the first \<open>N - 1\<close> of them, in feed order, and by nothing else.
\<close>

theorem failed_send_keeps_earlier_items:
  assumes "loadState rt (state_file w) = Inr (JArr es)"
    and "warmup_ok w"
    and "response w = Some data"
    and "iterate data = Inr feed"
    and "send_results (main rt w) = replicate (N - 1) True @ [False]"
  shows "sent_items (main rt w) = take (Suc (N - 1)) (new_items es feed)
         \<and> saved_states (main rt w) = [JArr (es @ take (N - 1) (new_items es feed))]"
proof -
  let ?r = "deliver rt w (JArr es) 0 feed"
  have f: "and_then (fetch w) iterate = Inr feed"
    using assms(2,3,4) by (simp add: fetch_def)
  have m: "main rt w =
             fst ?r @ (case snd (snd ?r) of None \<Rightarrow> [] | Some e \<Rightarrow> [Catch e])
             @ [Save (fst (snd ?r)) (write_ok w)]
             @ (if write_ok w \<and> \<not> nullish (fst (snd ?r)) then [Destroy] else [Destroy, Exit 1])"
    using f by (simp add: main_unfold [OF assms(1)] Let_def)
  have sr: "send_results (main rt w) = send_results (fst ?r)"
    unfolding m by (simp split: option.splits)
  have si: "sent_items (main rt w) = sent_items (fst ?r)"
    unfolding m by (simp split: option.splits)
  have sv: "saved_states (main rt w) = [fst (snd ?r)]"
    unfolding m by (simp split: option.splits)
  obtain j where j:
    "fst (snd ?r) = JArr (es @ take j (new_items es feed))"
    "send_results (fst ?r) = replicate j True \<or> send_results (fst ?r) = replicate j True @ [False]"
    "sent_items (fst ?r) = take (length (send_results (fst ?r))) (new_items es feed)"
    using deliver_sends [of rt w es 0 feed] by blast
  have "j = N - 1"
    using j(2) assms(5) sr replicate_True_False [of j "N - 1"] by auto
  then show ?thesis
    using j(1,3) assms(5) sr si sv by simp
qed

theorem failed_send_keeps_earlier_items_witness:
  "loadState sample_runtime (state_file second_send_fails) = Inr (JArr [])
   \<and> warmup_ok second_send_fails
   \<and> response second_send_fails = Some (JArr [hca, cnc, acme])
   \<and> iterate (JArr [hca, cnc, acme]) = Inr [hca, cnc, acme]
   \<and> send_results (main sample_runtime second_send_fails) = replicate (2 - 1) True @ [False]
   \<and> sent_items (main sample_runtime second_send_fails) = [hca, cnc]
   \<and> saved_states (main sample_runtime second_send_fails) = [JArr [hca]]"
proof -
  have l: "loadState sample_runtime (state_file second_send_fails) = Inr (JArr [])"
    by (simp add: loadState_def readFile_def JSON_parse_def sample_runtime_def
                  second_send_fails_def)
  have u: "warmup_ok second_send_fails"
    by (simp add: second_send_fails_def)
  have r: "response second_send_fails = Some (JArr [hca, cnc, acme])"
    by (simp add: second_send_fails_def)
  have i: "iterate (JArr [hca, cnc, acme]) = Inr [hca, cnc, acme]"
    by simp
  have s: "send_results (main sample_runtime second_send_fails) = replicate (2 - 1) True @ [False]"
    by code_simp
  have n: "new_items [] [hca, cnc, acme] = [hca, cnc, acme]"
    by code_simp
  show ?thesis
    using l u r i s failed_send_keeps_earlier_items [OF l u r i s]
    by (simp add: n del: new_items.simps)
qed

text \<open>
  The specification's own new items, the reports whose key is not in the loaded state,
  are the new items above when the keys of a feed are unique, as its data model says.
\<close>

lemma new_items_unique_keys_aux:
  assumes "unique_keys feed"
    and "\<forall>p \<in> set pre. \<forall>item \<in> set feed. \<not> same_key p item"
  shows "new_items (es @ pre) feed = not_in_state es feed"
  using assms
proof (induction feed arbitrary: pre)
  case Nil
  then show ?case by (simp add: not_in_state_def)
next
  case (Cons i rest)
  have same: "(\<exists>e \<in> set (es @ pre). same_key e i) \<longleftrightarrow> (\<exists>e \<in> set es. same_key e i)"
    using Cons.prems(2) by auto
  have "new_items (es @ (pre @ [i])) rest = not_in_state es rest"
    using Cons.prems by (intro Cons.IH) auto
  then show ?case
    using same Cons.IH [of pre] Cons.prems by (auto simp: not_in_state_def)
qed

lemma new_items_unique_keys:
  "unique_keys feed \<Longrightarrow> new_items es feed = not_in_state es feed"
  using new_items_unique_keys_aux [of feed "[]" es] by simp

section \<open>Absent fields\<close>

lemma and_then_Inr_iff: "and_then m f = Inr y \<longleftrightarrow> (\<exists>x. m = Inr x \<and> f x = Inr y)"
  by (cases m) simp_all

lemma nullish_not_truthy: "nullish v \<Longrightarrow> \<not> truthy v"
  by (cases v) simp_all

text \<open>
  The fields that the code guards do render \<^verbatim>\<open>N/A\<close> when their value is null or absent:
  the two revenues, the four percentages, the two grades and the conference-call link.
\<close>

lemma refuse_if_Inr_iff: "refuse_if c m = Inr y \<longleftrightarrow> \<not> c \<and> m = Inr y"
  by (simp add: refuse_if_def)

lemma guarded_fields_render_NA:
  assumes "format rt printer now item = Inr e"
  shows "(nullish (get_prop item ''revenue'') \<longrightarrow> field_value (embed_fields e ! 2) = JStr ''N/A'')
       \<and> (nullish (get_prop item ''revenueEstimate'') \<longrightarrow> field_value (embed_fields e ! 3) = JStr ''N/A'')
       \<and> (nullish (get_prop item ''earningsSurprise'') \<longrightarrow> field_value (embed_fields e ! 4) = JStr ''N/A'')
       \<and> (nullish (get_prop item ''revenueSurprise'') \<longrightarrow> field_value (embed_fields e ! 5) = JStr ''N/A'')
       \<and> (nullish (get_prop item ''prevEarningsGrowth'') \<longrightarrow> field_value (embed_fields e ! 6) = JStr ''N/A'')
       \<and> (nullish (get_prop item ''prevRevenueGrowth'') \<longrightarrow> field_value (embed_fields e ! 7) = JStr ''N/A'')
       \<and> (nullish (get_prop item ''ewGrade'') \<longrightarrow> field_value (embed_fields e ! 9) = JStr ''N/A'')
       \<and> (nullish (get_prop item ''pwrRating'') \<longrightarrow> field_value (embed_fields e ! 10) = JStr ''N/A'')
       \<and> (nullish (get_prop item ''fileName'') \<longrightarrow> field_value (embed_fields e ! 11) = JStr ''N/A'')"
  using assms unfolding format_def and_then_Inr_iff refuse_if_Inr_iff
  by (auto simp: text_field_def fmtMoney_def fmtPercent_def or_NA_def nullish_not_truthy)

text \<open>
  C8 fails on the code for the five fields that are interpolated as they are. The record
  \<open>cnc\<close> has \<^verbatim>\<open>eps\<close>, \<^verbatim>\<open>estimate\<close> and \<^verbatim>\<open>highEstimate\<close> null and no \<^verbatim>\<open>whisper\<close> and
  \<^verbatim>\<open>lowEstimate\<close>: in any runtime and environment the EPS field reads
  \<^verbatim>\<open>null (Estimate: null / Whisper: undefined)\<close> and the High / Low field
  \<^verbatim>\<open>null / undefined\<close>, where the guarded fields beside them read \<^verbatim>\<open>N/A\<close>.
\<close>

theorem unguarded_fields_print_null:
  "map_sum id (\<lambda>e. map field_value (embed_fields e)) (format rt printer now cnc)
     = Inr [JStr (printer (JStr ''2025-07-27T12:50:00'')),
            JStr ''null (Estimate: null / Whisper: undefined)'',
            JStr ''$48.74B'',
            JStr ''N/A'', JStr ''N/A'', JStr ''N/A'', JStr ''N/A'', JStr ''N/A'',
            JStr ''null / undefined'',
            JStr ''N/A'', JStr ''N/A'', JStr ''N/A'']"
  by code_simp

section \<open>What the message depends on\<close>

text \<open>
  The record \<open>cnc\<close> passes every setter: it has a name and a summary, and its message is
  built, with the markup of the summary rewritten.
\<close>

lemma cnc_message:
  "map_sum id (\<lambda>e. (author e, description e, timestamp e)) (format rt printer now cnc)
     = Inr (JStr ''Centene Corporation'',
            ''Centene (CNC) reported a loss.'' @ [CHR 0x0A, CHR 0x0A]
              @ ''The company said during its [conference call] it expects less.'',
            now)"
  by code_simp

text \<open>
  C9, as it is stated, fails: the same record, one that the program formats and sends,
  gives two different messages at two readings of the clock, and two different messages
  with two date printers.
\<close>

theorem format_depends_on_time_and_environment:
  "format sample_runtime sample_printer 1753620600000 cnc
     \<noteq> format sample_runtime sample_printer 1753620603000 cnc
   \<and> format sample_runtime sample_printer 1753620600000 cnc
     \<noteq> format sample_runtime us_printer 1753620600000 cnc"
  by code_simp

lemma and_then_same_step:
  assumes "\<And>x. m = Inr x \<Longrightarrow> map_sum id g (f1 x) = map_sum id g (f2 x)"
  shows "map_sum id g (and_then m f1) = map_sum id g (and_then m f2)"
  using assms by (cases m) simp_all

lemma refuse_if_same_step:
  assumes "\<not> c \<Longrightarrow> map_sum id g m1 = map_sum id g m2"
  shows "map_sum id g (refuse_if c m1) = map_sum id g (refuse_if c m2)"
  using assms by (simp add: refuse_if_def)

lemma date_string_step:
  assumes "\<And>d1 d2. map_sum id g (f1 d1) = map_sum id g (f2 d2)"
  shows "map_sum id g (and_then (date_string rt p1 v) f1)
           = map_sum id g (and_then (date_string rt p2 v) f2)"
proof -
  have "(\<exists>e. date_string rt p1 v = Inl e \<and> date_string rt p2 v = Inl e)
        \<or> (\<exists>d1 d2. date_string rt p1 v = Inr d1 \<and> date_string rt p2 v = Inr d2)"
    by (cases v; cases "to_string rt v") (simp_all add: date_string_def)
  then show ?thesis using assms by auto
qed

text \<open>
  C9, as the code has it. In one runtime, the message built from a record depends on
  the record, on the clock that \<^verbatim>\<open>setTimestamp\<close> reads and on the environment's date
  printing, and on nothing else: whether the construction throws, and every part of the
  message but the timestamp and the value of the earnings-date field, are the same for
  every clock and every date printer.
\<close>

theorem format_fixed_but_for_time_and_date:
  "map_sum id without_time_and_date (format rt printer1 now1 item)
     = map_sum id without_time_and_date (format rt printer2 now2 item)"
  unfolding format_def
  apply (rule and_then_same_step)+
  apply (rule refuse_if_same_step)
  apply (rule date_string_step)
  apply (rule and_then_same_step)+
  apply (rule refuse_if_same_step)
  apply (rule and_then_same_step)
  apply (rule refuse_if_same_step)
  apply (simp add: without_time_and_date_def text_field_def)
  done

end
